theory Spec2Isabelle
  imports Main "HOL-Library.Word"
begin

section \<open>The macro-generated AVL tree of \<^verbatim>\<open>m_avl.h\<close>\<close>

text \<open>
  The tree of \<^verbatim>\<open>m_avl.h\<close> is a pointer structure: every node carries links to its
  parent and to its two children, and one shared sentinel node \<^verbatim>\<open>nil\<close> stands for every
  absent link. The model keeps that shape. A pointer is an address, the nodes live in a
  store from addresses to node records, and every statement of the C code that writes a
  field is one update of the store. The set \<open>live\<close> holds the addresses that
  \<^verbatim>\<open>malloc\<close> has handed out and \<^verbatim>\<open>free\<close> has not taken back.

  The payload type \<^verbatim>\<open>T\<close> is any linearly ordered type, and the injected comparator
  \<^verbatim>\<open>cmp\<close> is the three-way comparison of that order; the code only ever tests its
  result with \<^verbatim>\<open>>= 1\<close> and \<^verbatim>\<open><= -1\<close>. The destructor \<^verbatim>\<open>frd\<close> acts on resources
  inside a payload and never on a node, so it is left out.

  The field \<^verbatim>\<open>count\<close> is a \<^verbatim>\<open>uint32_t\<close> that the code increments without a bound,
  so it is a 32-bit word. The field \<^verbatim>\<open>height\<close> is a \<^verbatim>\<open>uint32_t\<close> too, but it is only
  ever set to one more than a child's height; it is a natural number here, and the
  balance factor, an \<^verbatim>\<open>int32_t\<close> difference of two heights, is an integer.
\<close>

type_synonym addr = nat

datatype merr_t =
    M_OK
  | M_MUST_BE_NULL
  | M_MALLOC_FAILED
  | M_FREE_NULL
  | M_NULL_INPUT
  | M_NOT_FOUND
  | M_POP_FROM_EMPTY
  | M_IDX_OVERFLOW
  | M_NULL_ACTION
  | M_INVALID_INPUT
  | M_UNDEFINED_BEHAVIOUR

record 'a mavl_node =
  data :: 'a
  parent :: addr
  left :: addr
  right :: addr
  count :: "32 word"
  height :: nat

record 'a mavl =
  root :: addr
  nil :: addr
  tree_size :: "64 word"
  heap :: "addr \<Rightarrow> 'a mavl_node"
  live :: "addr set"

definition cmp :: "'a::linorder \<Rightarrow> 'a \<Rightarrow> int" where
  "cmp a b = (if a < b then - 1 else if a = b then 0 else 1)"

definition MAVL_MAX_VALUES :: "nat \<Rightarrow> nat \<Rightarrow> nat" where
  "MAVL_MAX_VALUES A B = (if A \<ge> B then A else B)"

subsection \<open>Writing the fields of a node\<close>

definition store :: "'a mavl \<Rightarrow> addr \<Rightarrow> 'a mavl_node \<Rightarrow> 'a mavl" where
  "store self p n = self\<lparr>heap := (heap self)(p := n)\<rparr>"

definition set_parent :: "'a mavl \<Rightarrow> addr \<Rightarrow> addr \<Rightarrow> 'a mavl" where
  "set_parent self p v = store self p ((heap self p)\<lparr>parent := v\<rparr>)"

definition set_left :: "'a mavl \<Rightarrow> addr \<Rightarrow> addr \<Rightarrow> 'a mavl" where
  "set_left self p v = store self p ((heap self p)\<lparr>left := v\<rparr>)"

definition set_right :: "'a mavl \<Rightarrow> addr \<Rightarrow> addr \<Rightarrow> 'a mavl" where
  "set_right self p v = store self p ((heap self p)\<lparr>right := v\<rparr>)"

definition set_count :: "'a mavl \<Rightarrow> addr \<Rightarrow> 32 word \<Rightarrow> 'a mavl" where
  "set_count self p v = store self p ((heap self p)\<lparr>count := v\<rparr>)"

definition set_height :: "'a mavl \<Rightarrow> addr \<Rightarrow> nat \<Rightarrow> 'a mavl" where
  "set_height self p v = store self p ((heap self p)\<lparr>height := v\<rparr>)"

subsection \<open>Construction\<close>

text \<open>
  \<^verbatim>\<open>ID##_mavl\<close>: the comparator is never \<^verbatim>\<open>NULL\<close> here. The first \<^verbatim>\<open>malloc\<close>, of the
  tree structure, succeeds or not (\<open>self_ok\<close>); the second returns the address of the
  sentinel or \<^verbatim>\<open>NULL\<close> (\<open>None\<close>). The sentinel's payload is never initialised: it is
  whatever the memory held, the parameter \<open>junk\<close>. The store starts from \<open>mem\<close>, the
  memory as it was.
\<close>

definition mavl :: "bool \<Rightarrow> addr option \<Rightarrow> (addr \<Rightarrow> 'a mavl_node) \<Rightarrow> 'a mavl option" where
  "mavl self_ok nil_m mem =
     (if \<not> self_ok then None
      else (case nil_m of
        None \<Rightarrow> None
      | Some n \<Rightarrow>
          Some \<lparr>root = n, nil = n, tree_size = 0,
                heap = mem(n := (mem n)\<lparr>parent := n, left := n, right := n,
                                         count := 1, height := 0\<rparr>),
                live = {n}\<rparr>))"

text \<open>\<^verbatim>\<open>ID##_internal_mavl_node\<close>: \<open>m\<close> is what \<^verbatim>\<open>malloc\<close> returned.\<close>

definition internal_mavl_node :: "'a mavl \<Rightarrow> 'a \<Rightarrow> addr option \<Rightarrow> addr \<times> 'a mavl" where
  "internal_mavl_node self d m =
     (case m of
        None \<Rightarrow> (nil self, self)
      | Some self_node \<Rightarrow>
          (self_node,
           self\<lparr>heap := (heap self)(self_node :=
                    \<lparr>data = d, parent = nil self, left = nil self, right = nil self,
                     count = 1, height = 1\<rparr>),
                 live := insert self_node (live self)\<rparr>))"

subsection \<open>Heights and rotations\<close>

definition internal_mavl_upheight :: "'a mavl \<Rightarrow> addr \<Rightarrow> 'a mavl" where
  "internal_mavl_upheight self self_node =
     (if self_node \<noteq> nil self then
        set_height self self_node
          (MAVL_MAX_VALUES (height (heap self (left (heap self self_node))))
                           (height (heap self (right (heap self self_node)))) + 1)
      else self)"

definition internal_mavl_balance :: "'a mavl \<Rightarrow> addr \<Rightarrow> int" where
  "internal_mavl_balance self self_node =
     int (height (heap self (left (heap self self_node))))
       - int (height (heap self (right (heap self self_node))))"

definition internal_mavl_rotl :: "'a::linorder mavl \<Rightarrow> addr \<Rightarrow> 'a mavl" where
  "internal_mavl_rotl self self_node =
     (if self_node = nil self \<or> right (heap self self_node) = nil self then self
      else
        let temp = right (heap self self_node);
            s1 = set_right self self_node (left (heap self temp));
            s2 = (if left (heap s1 temp) \<noteq> nil s1
                  then set_parent s1 (left (heap s1 temp)) self_node else s1);
            s3 = set_left s2 temp self_node;
            s4 = set_parent s3 temp (parent (heap s3 self_node));
            s5 = set_parent s4 self_node temp;
            s6 = (if parent (heap s5 temp) \<noteq> nil s5 then
                    (if cmp (data (heap s5 temp)) (data (heap s5 (parent (heap s5 temp)))) \<ge> 1
                     then set_right s5 (parent (heap s5 temp)) temp
                     else set_left s5 (parent (heap s5 temp)) temp)
                  else s5\<lparr>root := temp\<rparr>);
            s7 = internal_mavl_upheight s6 self_node
        in internal_mavl_upheight s7 temp)"

definition internal_mavl_rotr :: "'a::linorder mavl \<Rightarrow> addr \<Rightarrow> 'a mavl" where
  "internal_mavl_rotr self self_node =
     (if self_node = nil self \<or> left (heap self self_node) = nil self then self
      else
        let temp = left (heap self self_node);
            s1 = set_left self self_node (right (heap self temp));
            s2 = (if right (heap s1 temp) \<noteq> nil s1
                  then set_parent s1 (right (heap s1 temp)) self_node else s1);
            s3 = set_right s2 temp self_node;
            s4 = set_parent s3 temp (parent (heap s3 self_node));
            s5 = set_parent s4 self_node temp;
            s6 = (if parent (heap s5 temp) \<noteq> nil s5 then
                    (if cmp (data (heap s5 temp)) (data (heap s5 (parent (heap s5 temp)))) \<ge> 1
                     then set_right s5 (parent (heap s5 temp)) temp
                     else set_left s5 (parent (heap s5 temp)) temp)
                  else s5\<lparr>root := temp\<rparr>);
            s7 = internal_mavl_upheight s6 self_node
        in internal_mavl_upheight s7 temp)"

subsection \<open>Queries\<close>

text \<open>
  A \<^verbatim>\<open>while\<close> loop over links may run forever on a store whose links form a cycle, so
  every loop is a partial function into \<open>option\<close>: \<open>None\<close> is the loop that never
  returns.
\<close>

partial_function (option) find_node_loop :: "'a::linorder mavl \<Rightarrow> 'a \<Rightarrow> addr \<Rightarrow> addr option" where
  "find_node_loop self d iterator =
     (if iterator \<noteq> nil self then
        (if cmp (data (heap self iterator)) d \<le> - 1
           then find_node_loop self d (right (heap self iterator))
         else if cmp (data (heap self iterator)) d \<ge> 1
           then find_node_loop self d (left (heap self iterator))
         else Some iterator)
      else Some (nil self))"

declare find_node_loop.simps [code]

definition internal_mavl_find_node :: "'a::linorder mavl \<Rightarrow> 'a \<Rightarrow> addr option" where
  "internal_mavl_find_node self d = find_node_loop self d (root self)"

text \<open>
  An accumulator \<^verbatim>\<open>T *const acc\<close> is \<open>None\<close> when the pointer is \<^verbatim>\<open>NULL\<close> and
  \<open>Some v\<close> when it points at a cell holding \<open>v\<close>; every query returns the cell after
  the call beside its result code.
\<close>

definition mavl_find :: "'a::linorder mavl \<Rightarrow> 'a \<Rightarrow> 'a option \<Rightarrow> (merr_t \<times> 'a option) option" where
  "mavl_find self d acc =
     (case internal_mavl_find_node self d of
        None \<Rightarrow> None
      | Some self_node \<Rightarrow>
          if self_node = nil self then Some (M_NOT_FOUND, acc)
          else if acc \<noteq> None then Some (M_OK, Some (data (heap self self_node)))
          else Some (M_OK, acc))"

partial_function (option) min_node_loop :: "'a mavl \<Rightarrow> addr \<Rightarrow> addr option" where
  "min_node_loop self self_node =
     (if left (heap self self_node) \<noteq> nil self
      then min_node_loop self (left (heap self self_node))
      else Some self_node)"

declare min_node_loop.simps [code]

definition internal_mavl_min_node :: "'a mavl \<Rightarrow> addr \<Rightarrow> addr option" where
  "internal_mavl_min_node self self_node =
     (if self_node \<noteq> nil self then min_node_loop self self_node else Some self_node)"

partial_function (option) max_node_loop :: "'a mavl \<Rightarrow> addr \<Rightarrow> addr option" where
  "max_node_loop self self_node =
     (if right (heap self self_node) \<noteq> nil self
      then max_node_loop self (right (heap self self_node))
      else Some self_node)"

declare max_node_loop.simps [code]

definition internal_mavl_max_node :: "'a mavl \<Rightarrow> addr \<Rightarrow> addr option" where
  "internal_mavl_max_node self self_node =
     (if self_node \<noteq> nil self then max_node_loop self self_node else Some self_node)"

text \<open>
  \<^verbatim>\<open>ID##_mavl_min\<close> and \<^verbatim>\<open>ID##_mavl_max\<close> take the accumulator by pointer and return
  \<^verbatim>\<open>M_NULL_INPUT\<close> when it is \<^verbatim>\<open>NULL\<close>.
\<close>

definition mavl_min :: "'a::linorder mavl \<Rightarrow> 'a \<Rightarrow> 'a option \<Rightarrow> (merr_t \<times> 'a option) option" where
  "mavl_min self d acc =
     (if acc = None then Some (M_NULL_INPUT, acc)
      else (case internal_mavl_find_node self d of
        None \<Rightarrow> None
      | Some found \<Rightarrow>
          (case internal_mavl_min_node self found of
             None \<Rightarrow> None
           | Some m \<Rightarrow> Some (M_OK, Some (data (heap self m))))))"

definition mavl_max :: "'a::linorder mavl \<Rightarrow> 'a \<Rightarrow> 'a option \<Rightarrow> (merr_t \<times> 'a option) option" where
  "mavl_max self d acc =
     (if acc = None then Some (M_NULL_INPUT, acc)
      else (case internal_mavl_find_node self d of
        None \<Rightarrow> None
      | Some found \<Rightarrow>
          (case internal_mavl_max_node self found of
             None \<Rightarrow> None
           | Some m \<Rightarrow> Some (M_OK, Some (data (heap self m))))))"

partial_function (option) pred_loop :: "'a mavl \<Rightarrow> addr \<Rightarrow> addr \<Rightarrow> addr option" where
  "pred_loop self iterator parent_iterator =
     (if parent_iterator \<noteq> nil self \<and> left (heap self parent_iterator) = iterator
      then pred_loop self parent_iterator (parent (heap self parent_iterator))
      else Some parent_iterator)"

declare pred_loop.simps [code]

definition mavl_pred :: "'a::linorder mavl \<Rightarrow> 'a \<Rightarrow> 'a option \<Rightarrow> (merr_t \<times> 'a option) option" where
  "mavl_pred self d acc =
     (case internal_mavl_find_node self d of
        None \<Rightarrow> None
      | Some iterator \<Rightarrow>
          if iterator = nil self then Some (M_INVALID_INPUT, acc)
          else if acc \<noteq> None then
            (if left (heap self iterator) \<noteq> nil self then
               (case internal_mavl_max_node self (left (heap self iterator)) of
                  None \<Rightarrow> None
                | Some m \<Rightarrow> Some (M_OK, Some (data (heap self m))))
             else
               (case pred_loop self iterator (parent (heap self iterator)) of
                  None \<Rightarrow> None
                | Some parent_iterator \<Rightarrow> Some (M_OK, Some (data (heap self parent_iterator)))))
          else Some (M_OK, acc))"

partial_function (option) succ_loop :: "'a mavl \<Rightarrow> addr \<Rightarrow> addr \<Rightarrow> addr option" where
  "succ_loop self iterator parent_iterator =
     (if parent_iterator \<noteq> nil self \<and> right (heap self parent_iterator) = iterator
      then succ_loop self parent_iterator (parent (heap self parent_iterator))
      else Some parent_iterator)"

declare succ_loop.simps [code]

definition mavl_succ :: "'a::linorder mavl \<Rightarrow> 'a \<Rightarrow> 'a option \<Rightarrow> (merr_t \<times> 'a option) option" where
  "mavl_succ self d acc =
     (case internal_mavl_find_node self d of
        None \<Rightarrow> None
      | Some iterator \<Rightarrow>
          if iterator = nil self then Some (M_INVALID_INPUT, acc)
          else if acc \<noteq> None then
            (if right (heap self iterator) \<noteq> nil self then
               (case internal_mavl_min_node self (right (heap self iterator)) of
                  None \<Rightarrow> None
                | Some m \<Rightarrow> Some (M_OK, Some (data (heap self m))))
             else
               (case succ_loop self iterator (parent (heap self iterator)) of
                  None \<Rightarrow> None
                | Some parent_iterator \<Rightarrow> Some (M_OK, Some (data (heap self parent_iterator)))))
          else Some (M_OK, acc))"

partial_function (option) lca_loop :: "'a::linorder mavl \<Rightarrow> 'a \<Rightarrow> 'a \<Rightarrow> addr \<Rightarrow> addr option" where
  "lca_loop self l r iterator =
     (if iterator \<noteq> nil self then
        (if cmp (data (heap self iterator)) l \<ge> 1 \<and> cmp (data (heap self iterator)) r \<ge> 1
           then lca_loop self l r (left (heap self iterator))
         else if cmp (data (heap self iterator)) l \<le> - 1
                 \<and> cmp (data (heap self iterator)) r \<le> - 1
           then lca_loop self l r (right (heap self iterator))
         else Some iterator)
      else Some (nil self))"

declare lca_loop.simps [code]

text \<open>
  In \<open>lca_loop\<close> the result \<^verbatim>\<open>nil\<close> is the loop running off the tree, after which the
  C function returns \<^verbatim>\<open>M_UNDEFINED_BEHAVIOUR\<close>; any other result is the node whose
  payload is written to the accumulator.
\<close>

definition mavl_lca :: "'a::linorder mavl \<Rightarrow> 'a \<Rightarrow> 'a \<Rightarrow> 'a option \<Rightarrow> (merr_t \<times> 'a option) option" where
  "mavl_lca self l r acc =
     (case internal_mavl_find_node self l of
        None \<Rightarrow> None
      | Some fl \<Rightarrow>
          if fl = nil self then Some (M_INVALID_INPUT, acc)
          else (case internal_mavl_find_node self r of
            None \<Rightarrow> None
          | Some fr \<Rightarrow>
              if fr = nil self then Some (M_INVALID_INPUT, acc)
              else if acc \<noteq> None then
                (case lca_loop self l r (root self) of
                   None \<Rightarrow> None
                 | Some iterator \<Rightarrow>
                     if iterator \<noteq> nil self
                     then Some (M_OK, Some (data (heap self iterator)))
                     else Some (M_UNDEFINED_BEHAVIOUR, acc))
              else Some (M_OK, acc)))"

subsection \<open>Insertion\<close>

text \<open>One pass of the body of the loop of \<^verbatim>\<open>ID##_internal_mavl_push_fix\<close>.\<close>

definition push_fix_body :: "'a::linorder mavl \<Rightarrow> addr \<Rightarrow> 'a mavl" where
  "push_fix_body self self_node =
     (let s0 = internal_mavl_upheight self self_node;
          bf = internal_mavl_balance s0 self_node;
          lbf = internal_mavl_balance s0 (left (heap s0 self_node));
          rbf = internal_mavl_balance s0 (right (heap s0 self_node));
          s1 = (if bf = 2 \<and> lbf = 1 then internal_mavl_rotr s0 self_node else s0);
          s2 = (if bf = - 2 \<and> rbf = - 1 then internal_mavl_rotl s1 self_node else s1);
          s3 = (if bf = 2 \<and> lbf = - 1
                then internal_mavl_rotr (internal_mavl_rotl s2 (left (heap s2 self_node))) self_node
                else s2)
      in (if bf = - 2 \<and> rbf = 1
          then internal_mavl_rotl (internal_mavl_rotr s3 (right (heap s3 self_node))) self_node
          else s3))"

partial_function (option) internal_mavl_push_fix :: "'a::linorder mavl \<Rightarrow> addr \<Rightarrow> 'a mavl option" where
  "internal_mavl_push_fix self self_node =
     (if self_node \<noteq> nil self then
        internal_mavl_push_fix (push_fix_body self self_node)
          (parent (heap (push_fix_body self self_node) self_node))
      else Some self)"

declare internal_mavl_push_fix.simps [code]

text \<open>
  The descent of \<^verbatim>\<open>ID##_mavl_push\<close>. \<open>Inl p\<close> is the early return at the node \<open>p\<close>
  whose payload compares equal; \<open>Inr p\<close> is the loop leaving the tree below \<open>p\<close>.
\<close>

partial_function (option) push_loop :: "'a::linorder mavl \<Rightarrow> 'a \<Rightarrow> addr \<Rightarrow> addr \<Rightarrow> (addr + addr) option" where
  "push_loop self d iterator parent_iterator =
     (if iterator \<noteq> nil self then
        (if cmp (data (heap self iterator)) d \<ge> 1
           then push_loop self d (left (heap self iterator)) iterator
         else if cmp (data (heap self iterator)) d \<le> - 1
           then push_loop self d (right (heap self iterator)) iterator
         else Some (Inl iterator))
      else Some (Inr parent_iterator))"

declare push_loop.simps [code]

definition mavl_push :: "'a::linorder mavl \<Rightarrow> 'a \<Rightarrow> addr option \<Rightarrow> (merr_t \<times> 'a mavl) option" where
  "mavl_push self d m =
     (case push_loop self d (root self) (nil self) of
        None \<Rightarrow> None
      | Some (Inl iterator) \<Rightarrow>
          Some (M_OK, set_count self iterator (count (heap self iterator) + 1))
      | Some (Inr parent_iterator) \<Rightarrow>
          (case internal_mavl_node self d m of
             (self_node, s0) \<Rightarrow>
               if self_node = nil s0 then Some (M_MALLOC_FAILED, s0)
               else if parent_iterator \<noteq> nil s0 then
                 (let s1 = set_parent s0 self_node parent_iterator;
                      s2 = (if cmp (data (heap s1 parent_iterator)) (data (heap s1 self_node)) \<ge> 1
                            then set_left s1 parent_iterator self_node
                            else set_right s1 parent_iterator self_node)
                  in case internal_mavl_push_fix s2 parent_iterator of
                       None \<Rightarrow> None
                     | Some s3 \<Rightarrow> Some (M_OK, s3\<lparr>tree_size := tree_size s3 + 1\<rparr>))
               else Some (M_OK, s0\<lparr>root := self_node, tree_size := tree_size s0 + 1\<rparr>)))"

subsection \<open>Deletion\<close>

definition internal_mavl_swap :: "'a mavl \<Rightarrow> addr \<Rightarrow> addr \<Rightarrow> 'a mavl" where
  "internal_mavl_swap self dest src =
     (if dest = nil self \<or> src = nil self then self
      else
        let temp0 = right (heap self dest);
            s1 = set_right self dest (right (heap self src));
            s2 = (if right (heap s1 dest) \<noteq> nil s1
                  then set_parent s1 (right (heap s1 dest)) dest else s1);
            s3 = set_right s2 src temp0;
            s4 = (if right (heap s3 src) \<noteq> nil s3
                  then set_parent s3 (right (heap s3 src)) src else s3);
            temp1 = left (heap s4 dest);
            s5 = set_left s4 dest (left (heap s4 src));
            s6 = (if left (heap s5 dest) \<noteq> nil s5
                  then set_parent s5 (left (heap s5 dest)) dest else s5);
            s7 = set_left s6 src temp1;
            s8 = (if left (heap s7 src) \<noteq> nil s7
                  then set_parent s7 (left (heap s7 src)) src else s7);
            temp2 = parent (heap s8 dest);
            s9 = set_parent s8 dest (parent (heap s8 src));
            s10 = (if parent (heap s9 dest) \<noteq> nil s9 then
                     (if left (heap s9 (parent (heap s9 dest))) = src
                      then set_left s9 (parent (heap s9 dest)) dest
                      else set_right s9 (parent (heap s9 dest)) dest)
                   else s9\<lparr>root := dest\<rparr>);
            s11 = set_parent s10 src temp2
        in (if parent (heap s11 src) \<noteq> nil s11 then
              (if left (heap s11 (parent (heap s11 src))) = dest
               then set_left s11 (parent (heap s11 src)) src
               else set_right s11 (parent (heap s11 src)) src)
            else s11\<lparr>root := src\<rparr>))"

text \<open>One pass of the body of the loop of \<^verbatim>\<open>ID##_internal_mavl_pop_fix\<close>.\<close>

definition pop_fix_body :: "'a::linorder mavl \<Rightarrow> addr \<Rightarrow> 'a mavl" where
  "pop_fix_body self self_node =
     (let s0 = internal_mavl_upheight self self_node;
          bf = internal_mavl_balance s0 self_node;
          lbf = internal_mavl_balance s0 (left (heap s0 self_node));
          rbf = internal_mavl_balance s0 (right (heap s0 self_node));
          s1 = (if bf > 1 \<and> lbf \<ge> 0 then internal_mavl_rotr s0 self_node else s0);
          s2 = (if bf < - 1 \<and> rbf \<le> 0 then internal_mavl_rotl s1 self_node else s1);
          s3 = (if bf > 1 \<and> lbf < 0
                then internal_mavl_rotr (internal_mavl_rotl s2 (left (heap s2 self_node))) self_node
                else s2)
      in (if bf < - 1 \<and> rbf > 0
          then internal_mavl_rotl (internal_mavl_rotr s3 (right (heap s3 self_node))) self_node
          else s3))"

partial_function (option) internal_mavl_pop_fix :: "'a::linorder mavl \<Rightarrow> addr \<Rightarrow> 'a mavl option" where
  "internal_mavl_pop_fix self self_node =
     (if self_node \<noteq> nil self then
        internal_mavl_pop_fix (pop_fix_body self self_node)
          (parent (heap (pop_fix_body self self_node) self_node))
      else Some self)"

declare internal_mavl_pop_fix.simps [code]

text \<open>
  The three-way unlinking of \<^verbatim>\<open>ID##_mavl_pop\<close>: the node \<open>self_node\<close> has at most one
  child when the statement is reached on a well-formed tree, and the child (or the
  sentinel) takes its place under its parent.
\<close>

definition pop_unlink :: "'a mavl \<Rightarrow> addr \<Rightarrow> 'a mavl" where
  "pop_unlink self self_node =
     (if left (heap self self_node) \<noteq> nil self then
        (let s1 = set_parent self (left (heap self self_node)) (parent (heap self self_node))
         in if parent (heap s1 self_node) \<noteq> nil s1 then
              (if right (heap s1 (parent (heap s1 self_node))) = self_node
               then set_right s1 (parent (heap s1 self_node)) (left (heap s1 self_node))
               else set_left s1 (parent (heap s1 self_node)) (left (heap s1 self_node)))
            else s1\<lparr>root := left (heap s1 self_node)\<rparr>)
      else if right (heap self self_node) \<noteq> nil self then
        (let s1 = set_parent self (right (heap self self_node)) (parent (heap self self_node))
         in if parent (heap s1 self_node) \<noteq> nil s1 then
              (if right (heap s1 (parent (heap s1 self_node))) = self_node
               then set_right s1 (parent (heap s1 self_node)) (right (heap s1 self_node))
               else set_left s1 (parent (heap s1 self_node)) (right (heap s1 self_node)))
            else s1\<lparr>root := right (heap s1 self_node)\<rparr>)
      else
        (if parent (heap self self_node) \<noteq> nil self then
           (if right (heap self (parent (heap self self_node))) = self_node
            then set_right self (parent (heap self self_node)) (nil self)
            else set_left self (parent (heap self self_node)) (nil self))
         else self\<lparr>root := nil self\<rparr>))"

definition mavl_pop :: "'a::linorder mavl \<Rightarrow> 'a \<Rightarrow> (merr_t \<times> 'a mavl) option" where
  "mavl_pop self d =
     (if root self = nil self then Some (M_POP_FROM_EMPTY, self)
      else
        (case internal_mavl_find_node self d of
           None \<Rightarrow> None
         | Some self_node \<Rightarrow>
             if self_node = nil self then Some (M_INVALID_INPUT, self)
             else
               (case (if left (heap self self_node) \<noteq> nil self
                         \<and> right (heap self self_node) \<noteq> nil self
                      then (case internal_mavl_min_node self (right (heap self self_node)) of
                              None \<Rightarrow> None
                            | Some src \<Rightarrow> Some (internal_mavl_swap self self_node src))
                      else Some self) of
                  None \<Rightarrow> None
                | Some s1 \<Rightarrow>
                    (let s2 = pop_unlink s1 self_node;
                         parent_self_node = parent (heap s2 self_node);
                         s3 = s2\<lparr>live := live s2 - {self_node}\<rparr>;
                         s4 = s3\<lparr>tree_size := tree_size s3 - 1\<rparr>
                     in if parent_self_node \<noteq> nil s4
                        then (case internal_mavl_pop_fix s4 parent_self_node of
                                None \<Rightarrow> None
                              | Some s5 \<Rightarrow> Some (M_OK, s5))
                        else Some (M_OK, s4)))))"

section \<open>The shape a store represents\<close>

text \<open>
  The properties of the tree are stated over the shape its store represents: a binary
  tree whose nodes carry the address of the C node and the contents of its payload,
  count and height fields. \<open>rep h nl par T p\<close>-style reading: the store \<open>h\<close> holds the
  shape \<open>T\<close> below a node whose parent link must be \<open>par\<close>, with \<open>nl\<close> the sentinel.
\<close>

datatype 'a ntree = Leaf | Node "'a ntree" addr 'a "32 word" nat "'a ntree"

fun ptr :: "addr \<Rightarrow> 'a ntree \<Rightarrow> addr" where
  "ptr nl Leaf = nl"
| "ptr nl (Node l a d c ht r) = a"

fun addrs :: "'a ntree \<Rightarrow> addr list" where
  "addrs Leaf = []"
| "addrs (Node l a d c ht r) = addrs l @ a # addrs r"

fun keys :: "'a ntree \<Rightarrow> 'a list" where
  "keys Leaf = []"
| "keys (Node l a d c ht r) = keys l @ d # keys r"

fun sh :: "'a ntree \<Rightarrow> nat" where
  "sh Leaf = 0"
| "sh (Node l a d c ht r) = ht"

fun rep :: "(addr \<Rightarrow> 'a mavl_node) \<Rightarrow> addr \<Rightarrow> addr \<Rightarrow> 'a ntree \<Rightarrow> bool" where
  "rep h nl par Leaf = True"
| "rep h nl par (Node l a d c ht r) =
     (a \<noteq> nl \<and>
      h a = \<lparr>data = d, parent = par, left = ptr nl l, right = ptr nl r,
             count = c, height = ht\<rparr> \<and>
      rep h nl a l \<and> rep h nl a r)"

text \<open>
  The sentinel as \<^verbatim>\<open>ID##_mavl\<close> leaves it: its three links point at itself and its
  height is 0.
\<close>

definition nil_ok :: "'a mavl \<Rightarrow> bool" where
  "nil_ok t = (parent (heap t (nil t)) = nil t \<and> left (heap t (nil t)) = nil t
               \<and> right (heap t (nil t)) = nil t \<and> height (heap t (nil t)) = 0)"

definition tree_rep :: "'a mavl \<Rightarrow> 'a ntree \<Rightarrow> bool" where
  "tree_rep t T =
     (root t = ptr (nil t) T \<and> rep (heap t) (nil t) (nil t) T \<and> distinct (addrs T)
      \<and> nil_ok t \<and> live t = insert (nil t) (set (addrs T))
      \<and> tree_size t = of_nat (length (addrs T)))"

text \<open>
  The three invariants over a shape: the order of a binary search tree, the AVL balance
  over the stored heights, and the consistency of every stored height with the stored
  heights of the children (an absent child counting as height 0).
\<close>

fun bst :: "'a::linorder ntree \<Rightarrow> bool" where
  "bst Leaf = True"
| "bst (Node l a d c ht r) =
     ((\<forall>x \<in> set (keys l). x < d) \<and> (\<forall>x \<in> set (keys r). d < x) \<and> bst l \<and> bst r)"

fun balanced :: "'a ntree \<Rightarrow> bool" where
  "balanced Leaf = True"
| "balanced (Node l a d c ht r) =
     (\<bar>int (sh l) - int (sh r)\<bar> \<le> 1 \<and> balanced l \<and> balanced r)"

fun heights_ok :: "'a ntree \<Rightarrow> bool" where
  "heights_ok Leaf = True"
| "heights_ok (Node l a d c ht r) =
     (ht = 1 + max (sh l) (sh r) \<and> heights_ok l \<and> heights_ok r)"

text \<open>The descent of \<^verbatim>\<open>find_node\<close> over a shape.\<close>

fun find_t :: "'a::linorder ntree \<Rightarrow> 'a \<Rightarrow> addr option" where
  "find_t Leaf k = None"
| "find_t (Node l a d c ht r) k =
     (if d < k then find_t r k else if k < d then find_t l k else Some a)"

fun min_t :: "'a ntree \<Rightarrow> addr \<Rightarrow> addr" where
  "min_t Leaf a0 = a0"
| "min_t (Node l a d c ht r) a0 = min_t l a"

fun max_t :: "'a ntree \<Rightarrow> addr \<Rightarrow> addr" where
  "max_t Leaf a0 = a0"
| "max_t (Node l a d c ht r) a0 = max_t r a"

section \<open>The void-pointer AVL tree of \<^verbatim>\<open>scl_avl_tree.c\<close>: insertion\<close>

text \<open>
  The second implementation marks an absent link with \<^verbatim>\<open>NULL\<close> and keeps the payload
  in a block of its own, allocated with a second \<^verbatim>\<open>malloc\<close>: the \<^verbatim>\<open>data\<close> field is a
  pointer, \<open>None\<close> when it is \<^verbatim>\<open>NULL\<close>. The header that declares the structures is not
  among the sources; the fields are the ones the functions use. The comparator receives
  the two payload pointers and reads through both, so it has no result when one of them
  is \<^verbatim>\<open>NULL\<close>. A result \<open>None\<close> of a function below is a call that does not return: a
  loop that runs forever, or the comparator reading through \<^verbatim>\<open>NULL\<close>.
\<close>

record 'a avl_tree_node_t =
  avl_data :: "'a option"
  avl_parent :: "addr option"
  avl_left :: "addr option"
  avl_right :: "addr option"
  avl_count :: "32 word"
  avl_height :: int

record 'a avl_tree_t =
  avl_root :: "addr option"
  avl_size :: "64 word"
  avl_heap :: "addr \<Rightarrow> 'a avl_tree_node_t"

definition compare_data :: "'a::linorder option \<Rightarrow> 'a option \<Rightarrow> int option" where
  "compare_data x y =
     (case x of None \<Rightarrow> None
      | Some a \<Rightarrow> (case y of None \<Rightarrow> None | Some b \<Rightarrow> Some (cmp a b)))"

definition avl_store :: "'a avl_tree_t \<Rightarrow> addr \<Rightarrow> 'a avl_tree_node_t \<Rightarrow> 'a avl_tree_t" where
  "avl_store tree p n = tree\<lparr>avl_heap := (avl_heap tree)(p := n)\<rparr>"

definition create_avl :: "bool \<Rightarrow> (addr \<Rightarrow> 'a avl_tree_node_t) \<Rightarrow> 'a avl_tree_t option" where
  "create_avl tree_ok mem =
     (if tree_ok then Some \<lparr>avl_root = None, avl_size = 0, avl_heap = mem\<rparr> else None)"

text \<open>
  \<^verbatim>\<open>create_avl_node\<close>: \<open>node_m\<close> is what the first \<^verbatim>\<open>malloc\<close> returns, \<open>data_ok\<close>
  whether the second, for the payload, succeeds. When the second fails the function
  prints a message and still returns the node, its \<^verbatim>\<open>data\<close> pointer \<^verbatim>\<open>NULL\<close>.
\<close>

definition create_avl_node ::
  "'a avl_tree_t \<Rightarrow> 'a option \<Rightarrow> nat \<Rightarrow> addr option \<Rightarrow> bool \<Rightarrow> addr option \<times> 'a avl_tree_t" where
  "create_avl_node tree d data_size node_m data_ok =
     (if d = None then (None, tree)
      else (case node_m of
        None \<Rightarrow> (None, tree)
      | Some new_node \<Rightarrow>
          (Some new_node,
           avl_store tree new_node
             \<lparr>avl_data = (if data_ok then d else None), avl_parent = None,
              avl_left = None, avl_right = None, avl_count = 1, avl_height = 1\<rparr>)))"

definition avl_update_node_height :: "'a avl_tree_t \<Rightarrow> addr option \<Rightarrow> 'a avl_tree_t" where
  "avl_update_node_height tree fix_node =
     (case fix_node of
        None \<Rightarrow> tree
      | Some f \<Rightarrow>
          (let left_node_height =
                 (case avl_left (avl_heap tree f) of
                    None \<Rightarrow> 0 | Some l \<Rightarrow> avl_height (avl_heap tree l));
               right_node_height =
                 (case avl_right (avl_heap tree f) of
                    None \<Rightarrow> 0 | Some r \<Rightarrow> avl_height (avl_heap tree r))
           in avl_store tree f
                ((avl_heap tree f)\<lparr>avl_height :=
                   (if left_node_height \<ge> right_node_height
                    then left_node_height else right_node_height) + 1\<rparr>)))"

text \<open>
  \<open>avl_relink\<close> is the last conditional of both rotations: the new root of the rotated
  subtree is hung under its parent, on the side that the comparator chooses, or becomes
  the root of the tree.
\<close>

definition avl_relink :: "'a::linorder avl_tree_t \<Rightarrow> addr \<Rightarrow> 'a avl_tree_t option" where
  "avl_relink tree rotate_node =
     (case avl_parent (avl_heap tree rotate_node) of
        None \<Rightarrow> Some (tree\<lparr>avl_root := Some rotate_node\<rparr>)
      | Some p \<Rightarrow>
          (case compare_data (avl_data (avl_heap tree rotate_node)) (avl_data (avl_heap tree p)) of
             None \<Rightarrow> None
           | Some c \<Rightarrow>
               if c \<ge> 1
               then Some (avl_store tree p ((avl_heap tree p)\<lparr>avl_right := Some rotate_node\<rparr>))
               else Some (avl_store tree p ((avl_heap tree p)\<lparr>avl_left := Some rotate_node\<rparr>))))"

definition avl_rotate_left :: "'a::linorder avl_tree_t \<Rightarrow> addr option \<Rightarrow> 'a avl_tree_t option" where
  "avl_rotate_left tree fix_node =
     (case fix_node of
        None \<Rightarrow> Some tree
      | Some f \<Rightarrow>
          (case avl_right (avl_heap tree f) of
             None \<Rightarrow> Some tree
           | Some rotate_node \<Rightarrow>
               (let s1 = avl_store tree f
                           ((avl_heap tree f)\<lparr>avl_right := avl_left (avl_heap tree rotate_node)\<rparr>);
                    s2 = (case avl_left (avl_heap s1 rotate_node) of
                            None \<Rightarrow> s1
                          | Some c \<Rightarrow> avl_store s1 c ((avl_heap s1 c)\<lparr>avl_parent := Some f\<rparr>));
                    s3 = avl_store s2 rotate_node
                           ((avl_heap s2 rotate_node)\<lparr>avl_left := Some f\<rparr>);
                    s4 = avl_store s3 rotate_node
                           ((avl_heap s3 rotate_node)\<lparr>avl_parent := avl_parent (avl_heap s3 f)\<rparr>);
                    s5 = avl_store s4 f ((avl_heap s4 f)\<lparr>avl_parent := Some rotate_node\<rparr>)
                in (case avl_relink s5 rotate_node of
                      None \<Rightarrow> None
                    | Some s6 \<Rightarrow>
                        Some (avl_update_node_height (avl_update_node_height s6 (Some f))
                                (Some rotate_node))))))"

definition avl_rotate_right :: "'a::linorder avl_tree_t \<Rightarrow> addr option \<Rightarrow> 'a avl_tree_t option" where
  "avl_rotate_right tree fix_node =
     (case fix_node of
        None \<Rightarrow> Some tree
      | Some f \<Rightarrow>
          (case avl_left (avl_heap tree f) of
             None \<Rightarrow> Some tree
           | Some rotate_node \<Rightarrow>
               (let s1 = avl_store tree f
                           ((avl_heap tree f)\<lparr>avl_left := avl_right (avl_heap tree rotate_node)\<rparr>);
                    s2 = (case avl_right (avl_heap s1 rotate_node) of
                            None \<Rightarrow> s1
                          | Some c \<Rightarrow> avl_store s1 c ((avl_heap s1 c)\<lparr>avl_parent := Some f\<rparr>));
                    s3 = avl_store s2 rotate_node
                           ((avl_heap s2 rotate_node)\<lparr>avl_right := Some f\<rparr>);
                    s4 = avl_store s3 rotate_node
                           ((avl_heap s3 rotate_node)\<lparr>avl_parent := avl_parent (avl_heap s3 f)\<rparr>);
                    s5 = avl_store s4 f ((avl_heap s4 f)\<lparr>avl_parent := Some rotate_node\<rparr>)
                in (case avl_relink s5 rotate_node of
                      None \<Rightarrow> None
                    | Some s6 \<Rightarrow>
                        Some (avl_update_node_height (avl_update_node_height s6 (Some f))
                                (Some rotate_node))))))"

definition avl_get_node_balance :: "'a avl_tree_t \<Rightarrow> addr option \<Rightarrow> int" where
  "avl_get_node_balance tree fix_node =
     (case fix_node of
        None \<Rightarrow> 0
      | Some f \<Rightarrow>
          (case (avl_left (avl_heap tree f), avl_right (avl_heap tree f)) of
             (None, None) \<Rightarrow> 0
           | (Some l, None) \<Rightarrow> avl_height (avl_heap tree l)
           | (None, Some r) \<Rightarrow> - avl_height (avl_heap tree r)
           | (Some l, Some r) \<Rightarrow> avl_height (avl_heap tree l) - avl_height (avl_heap tree r)))"

text \<open>One pass of the body of the loop of \<^verbatim>\<open>avl_insert_fix_node_up\<close> at the node \<open>f\<close>.\<close>

definition avl_insert_fix_body :: "'a::linorder avl_tree_t \<Rightarrow> addr \<Rightarrow> 'a avl_tree_t option" where
  "avl_insert_fix_body tree f =
     (let s0 = avl_update_node_height tree (Some f);
          bf = avl_get_node_balance s0 (Some f);
          lbf = avl_get_node_balance s0 (avl_left (avl_heap s0 f));
          rbf = avl_get_node_balance s0 (avl_right (avl_heap s0 f))
      in Option.bind (if 2 = bf \<and> 1 = lbf then avl_rotate_right s0 (Some f) else Some s0) (\<lambda>s1.
         Option.bind (if - 2 = bf \<and> - 1 = rbf then avl_rotate_left s1 (Some f) else Some s1) (\<lambda>s2.
         Option.bind (if 2 = bf \<and> - 1 = lbf
                      then Option.bind (avl_rotate_left s2 (avl_left (avl_heap s2 f)))
                             (\<lambda>s. avl_rotate_right s (Some f))
                      else Some s2) (\<lambda>s3.
         (if - 2 = bf \<and> 1 = rbf
          then Option.bind (avl_rotate_right s3 (avl_right (avl_heap s3 f)))
                 (\<lambda>s. avl_rotate_left s (Some f))
          else Some s3)))))"

partial_function (option) avl_insert_fix_node_up ::
    "'a::linorder avl_tree_t \<Rightarrow> addr option \<Rightarrow> 'a avl_tree_t option" where
  "avl_insert_fix_node_up tree fix_node =
     (case fix_node of
        None \<Rightarrow> Some tree
      | Some f \<Rightarrow>
          Option.bind (avl_insert_fix_body tree f)
            (\<lambda>s. avl_insert_fix_node_up s (avl_parent (avl_heap s f))))"

declare avl_insert_fix_node_up.simps [code]

text \<open>
  The descent of \<^verbatim>\<open>avl_insert\<close>: \<open>Inl p\<close> is the early return at the node \<open>p\<close> whose
  payload compares equal, \<open>Inr q\<close> the loop leaving the tree below \<open>q\<close>.
\<close>

partial_function (option) avl_insert_loop ::
    "'a::linorder avl_tree_t \<Rightarrow> 'a option \<Rightarrow> addr option \<Rightarrow> addr option
       \<Rightarrow> (addr + addr option) option" where
  "avl_insert_loop tree d iterator parent_iterator =
     (case iterator of
        None \<Rightarrow> Some (Inr parent_iterator)
      | Some i \<Rightarrow>
          (case compare_data (avl_data (avl_heap tree i)) d of
             None \<Rightarrow> None
           | Some c \<Rightarrow>
               if c \<ge> 1 then avl_insert_loop tree d (avl_left (avl_heap tree i)) (Some i)
               else if c \<le> - 1 then avl_insert_loop tree d (avl_right (avl_heap tree i)) (Some i)
               else Some (Inl i)))"

declare avl_insert_loop.simps [code]

definition avl_insert ::
  "'a::linorder avl_tree_t \<Rightarrow> 'a option \<Rightarrow> nat \<Rightarrow> addr option \<Rightarrow> bool
     \<Rightarrow> (int \<times> 'a avl_tree_t) option" where
  "avl_insert tree d data_size node_m data_ok =
     (if d = None \<or> 0 = data_size then Some (1, tree)
      else
        (case avl_insert_loop tree d (avl_root tree) None of
           None \<Rightarrow> None
         | Some (Inl i) \<Rightarrow>
             Some (0, avl_store tree i
                        ((avl_heap tree i)\<lparr>avl_count := avl_count (avl_heap tree i) + 1\<rparr>))
         | Some (Inr parent_iterator) \<Rightarrow>
             (case create_avl_node tree d data_size node_m data_ok of
                (None, s0) \<Rightarrow> Some (1, s0)
              | (Some new_node, s0) \<Rightarrow>
                  (case parent_iterator of
                     None \<Rightarrow>
                       Some (0, s0\<lparr>avl_root := Some new_node, avl_size := avl_size s0 + 1\<rparr>)
                   | Some p \<Rightarrow>
                       (let s1 = avl_store s0 new_node
                                   ((avl_heap s0 new_node)\<lparr>avl_parent := Some p\<rparr>)
                        in (case compare_data (avl_data (avl_heap s1 p))
                                     (avl_data (avl_heap s1 new_node)) of
                              None \<Rightarrow> None
                            | Some c \<Rightarrow>
                                (let s2 = (if c \<ge> 1
                                           then avl_store s1 p ((avl_heap s1 p)\<lparr>avl_left := Some new_node\<rparr>)
                                           else avl_store s1 p ((avl_heap s1 p)\<lparr>avl_right := Some new_node\<rparr>))
                                 in (case avl_insert_fix_node_up s2 (Some p) of
                                       None \<Rightarrow> None
                                     | Some s3 \<Rightarrow>
                                         Some (0, s3\<lparr>avl_size := avl_size s3 + 1\<rparr>)))))))))"

section \<open>Contexts: a shape with a hole\<close>

text \<open>
  The loops that climb through the parent links work at a node inside the tree. A
  frame records one step from a node up to its parent: the parent's fields and the shape
  of the sibling. A context is the list of frames from a position to the root, innermost
  first, and \<open>plug S C\<close> is the whole shape with \<open>S\<close> at the position.
\<close>

datatype 'a frame =
    LF addr 'a "32 word" nat "'a ntree"
  | RF "'a ntree" addr 'a "32 word" nat

fun up :: "'a frame \<Rightarrow> 'a ntree \<Rightarrow> 'a ntree" where
  "up (LF a d c ht r) S = Node S a d c ht r"
| "up (RF l a d c ht) S = Node l a d c ht S"

fun plug :: "'a ntree \<Rightarrow> 'a frame list \<Rightarrow> 'a ntree" where
  "plug S [] = S"
| "plug S (f # C) = plug (up f S) C"

fun faddr :: "'a frame \<Rightarrow> addr" where
  "faddr (LF a d c ht r) = a"
| "faddr (RF l a d c ht) = a"

fun fkey :: "'a frame \<Rightarrow> 'a" where
  "fkey (LF a d c ht r) = d"
| "fkey (RF l a d c ht) = d"

fun hp :: "addr \<Rightarrow> 'a frame list \<Rightarrow> addr" where
  "hp nl [] = nl"
| "hp nl (f # C) = faddr f"

fun croot :: "'a frame list \<Rightarrow> addr \<Rightarrow> addr" where
  "croot [] p = p"
| "croot (f # C) p = croot C (faddr f)"

fun ctx_rep :: "(addr \<Rightarrow> 'a mavl_node) \<Rightarrow> addr \<Rightarrow> 'a frame list \<Rightarrow> addr \<Rightarrow> bool" where
  "ctx_rep h nl [] p = True"
| "ctx_rep h nl (LF a d c ht r # C) p =
     (a \<noteq> nl \<and>
      h a = \<lparr>data = d, parent = hp nl C, left = p, right = ptr nl r, count = c, height = ht\<rparr> \<and>
      rep h nl a r \<and> ctx_rep h nl C a)"
| "ctx_rep h nl (RF l a d c ht # C) p =
     (a \<noteq> nl \<and>
      h a = \<lparr>data = d, parent = hp nl C, left = ptr nl l, right = p, count = c, height = ht\<rparr> \<and>
      rep h nl a l \<and> ctx_rep h nl C a)"

fun apre :: "'a frame list \<Rightarrow> addr list" where
  "apre [] = []"
| "apre (LF a d c ht r # C) = apre C"
| "apre (RF l a d c ht # C) = apre C @ addrs l @ [a]"

fun apost :: "'a frame list \<Rightarrow> addr list" where
  "apost [] = []"
| "apost (LF a d c ht r # C) = a # addrs r @ apost C"
| "apost (RF l a d c ht # C) = apost C"

fun kpre :: "'a frame list \<Rightarrow> 'a list" where
  "kpre [] = []"
| "kpre (LF a d c ht r # C) = kpre C"
| "kpre (RF l a d c ht # C) = kpre C @ keys l @ [d]"

fun kpost :: "'a frame list \<Rightarrow> 'a list" where
  "kpost [] = []"
| "kpost (LF a d c ht r # C) = d # keys r @ kpost C"
| "kpost (RF l a d c ht # C) = kpost C"

text \<open>The in-order list of the nodes of a shape: address, payload and count.\<close>

fun entries :: "'a ntree \<Rightarrow> (addr \<times> 'a \<times> 32 word) list" where
  "entries Leaf = []"
| "entries (Node l a d c ht r) = entries l @ (a, d, c) # entries r"

subsection \<open>The reference lowest common ancestor\<close>

text \<open>
  The reference computation of the lowest common ancestor: the ancestors of a key are
  the payloads on the path from the root to a node that holds it, found by a search of
  the whole shape; the lowest common ancestor is the deepest ancestor of the first key
  that is also an ancestor of the second.
\<close>

fun ancestors :: "'a ntree \<Rightarrow> 'a \<Rightarrow> 'a list option" where
  "ancestors Leaf k = None"
| "ancestors (Node l a d c ht r) k =
     (if d = k then Some [d]
      else (case ancestors l k of
              Some p \<Rightarrow> Some (d # p)
            | None \<Rightarrow> (case ancestors r k of Some p \<Rightarrow> Some (d # p) | None \<Rightarrow> None)))"

definition lca_reference :: "'a ntree \<Rightarrow> 'a \<Rightarrow> 'a \<Rightarrow> 'a option" where
  "lca_reference T k1 k2 =
     (case ancestors T k1 of
        None \<Rightarrow> None
      | Some p1 \<Rightarrow>
          (case ancestors T k2 of
             None \<Rightarrow> None
           | Some p2 \<Rightarrow> Some (last (filter (\<lambda>d. d \<in> set p2) p1))))"

section \<open>Example trees\<close>

text \<open>
  Concrete trees for the worked examples: a memory whose cells all hold the payload 99,
  the empty tree created in it with its sentinel at address 0, and trees grown from it
  by a list of insertions, each with the address that \<^verbatim>\<open>malloc\<close> returns for its node.
\<close>

definition mem0 :: "addr \<Rightarrow> int mavl_node" where
  "mem0 = (\<lambda>_. \<lparr>data = 99, parent = 0, left = 0, right = 0, count = 0, height = 0\<rparr>)"

definition ex_empty :: "int mavl" where
  "ex_empty = the (mavl True (Some 0) mem0)"

fun push_all :: "'a::linorder mavl \<Rightarrow> ('a \<times> addr) list \<Rightarrow> 'a mavl" where
  "push_all t [] = t"
| "push_all t ((k, a) # ks) = push_all (snd (the (mavl_push t k (Some a)))) ks"

definition ex_three :: "int mavl" where
  "ex_three = push_all ex_empty [(1, 1), (2, 2), (3, 3)]"

definition ex_three_shape :: "int ntree" where
  "ex_three_shape = Node (Node Leaf 1 1 1 1 Leaf) 2 2 1 2 (Node Leaf 3 3 1 1 Leaf)"

definition ex_one :: "int mavl" where
  "ex_one = push_all ex_empty [(5, 1)]"

text \<open>The empty tree of \<^verbatim>\<open>scl_avl_tree.c\<close>, in a memory of blank cells.\<close>

definition avl_empty :: "int avl_tree_t" where
  "avl_empty = the (create_avl True
      (\<lambda>_. \<lparr>avl_data = None, avl_parent = None, avl_left = None, avl_right = None,
             avl_count = 0, avl_height = 0\<rparr>))"

section \<open>Basic facts\<close>

lemma cmp_le_m1 [simp]: "(cmp a b \<le> - 1) = (a < b)"
  by (simp add: cmp_def)

lemma cmp_ge_1 [simp]: "(cmp a b \<ge> 1) = (b < a)"
  by (auto simp: cmp_def)

lemma MAVL_MAX_VALUES_max [simp]: "MAVL_MAX_VALUES a b = max a b"
  by (simp add: MAVL_MAX_VALUES_def max_def)

lemma store_simps [simp]:
  "heap (store t p n) = (heap t)(p := n)"
  "root (store t p n) = root t"
  "nil (store t p n) = nil t"
  "live (store t p n) = live t"
  "tree_size (store t p n) = tree_size t"
  by (simp_all add: store_def)

lemma rep_frame:
  "\<forall>a \<in> set (addrs T). h' a = h a \<Longrightarrow> rep h' nl par T = rep h nl par T"
  by (induction T arbitrary: par) auto

lemma rep_not_nil: "rep h nl par T \<Longrightarrow> nl \<notin> set (addrs T)"
  by (induction T arbitrary: par) auto

lemma find_node_loop_rep:
  "rep (heap t) (nil t) par S \<Longrightarrow>
   find_node_loop t k (ptr (nil t) S) = Some (case find_t S k of None \<Rightarrow> nil t | Some a \<Rightarrow> a)"
proof (induction S arbitrary: par)
  case Leaf
  show ?case by (subst find_node_loop.simps) simp
next
  case (Node l a d c ht r)
  from Node.prems have a: "a \<noteq> nil t"
    and ha: "heap t a = \<lparr>data = d, parent = par, left = ptr (nil t) l, right = ptr (nil t) r,
                          count = c, height = ht\<rparr>"
    and l: "rep (heap t) (nil t) a l" and r: "rep (heap t) (nil t) a r"
    by simp_all
  show ?case
    by (subst find_node_loop.simps) (simp add: a ha Node.IH(1)[OF l] Node.IH(2)[OF r])
qed

lemma find_t_in_addrs: "find_t S k = Some a \<Longrightarrow> a \<in> set (addrs S)"
  by (induction S) (auto split: if_splits)

lemma find_t_data:
  "rep h nl par S \<Longrightarrow> find_t S k = Some a \<Longrightarrow> data (h a) = k"
  by (induction S arbitrary: par) (auto split: if_splits)

lemma find_t_None_notin: "k \<notin> set (keys S) \<Longrightarrow> find_t S k = None"
  by (induction S) auto

lemma find_t_bst_None: "bst S \<Longrightarrow> find_t S k = None \<Longrightarrow> k \<notin> set (keys S)"
  by (induction S) (auto split: if_splits)

lemma find_node_tree_rep:
  "tree_rep t T \<Longrightarrow>
   internal_mavl_find_node t k = Some (case find_t T k of None \<Rightarrow> nil t | Some a \<Rightarrow> a)"
  unfolding internal_mavl_find_node_def tree_rep_def
  using find_node_loop_rep[of t "nil t" T k] by simp

lemma min_node_loop_rep:
  "rep (heap t) (nil t) par (Node l a d c ht r) \<Longrightarrow> min_node_loop t a = Some (min_t l a)"
proof (induction l arbitrary: par a d c ht r)
  case Leaf
  then show ?case by (subst min_node_loop.simps) simp
next
  case (Node l1 a1 d1 c1 ht1 r1)
  from Node.prems have "rep (heap t) (nil t) a (Node l1 a1 d1 c1 ht1 r1)" by simp
  from Node.IH(1)[OF this] Node.prems show ?case
    by (subst min_node_loop.simps) simp
qed

lemma max_node_loop_rep:
  "rep (heap t) (nil t) par (Node l a d c ht r) \<Longrightarrow> max_node_loop t a = Some (max_t r a)"
proof (induction r arbitrary: par a d c ht l)
  case Leaf
  then show ?case by (subst max_node_loop.simps) simp
next
  case (Node l1 a1 d1 c1 ht1 r1)
  from Node.prems have "rep (heap t) (nil t) a (Node l1 a1 d1 c1 ht1 r1)" by simp
  from Node.IH(2)[OF this] Node.prems show ?case
    by (subst max_node_loop.simps) simp
qed

lemma min_node_rep:
  "rep (heap t) (nil t) par S \<Longrightarrow>
   internal_mavl_min_node t (ptr (nil t) S) = Some (min_t S (nil t))"
proof (cases S)
  case Leaf
  then show ?thesis by (simp add: internal_mavl_min_node_def)
next
  case (Node l a d c ht r)
  assume "rep (heap t) (nil t) par S"
  with Node have "a \<noteq> nil t" "min_node_loop t a = Some (min_t l a)"
    using min_node_loop_rep[of t par l a d c ht r] by simp_all
  with Node show ?thesis by (simp add: internal_mavl_min_node_def)
qed

lemma max_node_rep:
  "rep (heap t) (nil t) par S \<Longrightarrow>
   internal_mavl_max_node t (ptr (nil t) S) = Some (max_t S (nil t))"
proof (cases S)
  case Leaf
  then show ?thesis by (simp add: internal_mavl_max_node_def)
next
  case (Node l a d c ht r)
  assume "rep (heap t) (nil t) par S"
  with Node have "a \<noteq> nil t" "max_node_loop t a = Some (max_t r a)"
    using max_node_loop_rep[of t par l a d c ht r] by simp_all
  with Node show ?thesis by (simp add: internal_mavl_max_node_def)
qed

lemma rep_subtree:
  "rep h nl par T \<Longrightarrow> a \<in> set (addrs T) \<Longrightarrow>
   \<exists>par' l d c ht r. rep h nl par' (Node l a d c ht r)"
proof (induction T arbitrary: par)
  case Leaf
  then show ?case by simp
next
  case (Node l1 a1 d1 c1 ht1 r1)
  from Node.prems(2) consider "a = a1" | "a \<in> set (addrs l1)" | "a \<in> set (addrs r1)"
    by auto
  then show ?case
  proof cases
    case 1
    with Node.prems(1) show ?thesis by blast
  next
    case 2
    from Node.prems(1) have "rep h nl a1 l1" by simp
    from Node.IH(1)[OF this 2] show ?thesis .
  next
    case 3
    from Node.prems(1) have "rep h nl a1 r1" by simp
    from Node.IH(2)[OF this 3] show ?thesis .
  qed
qed

lemma ex_three_rep: "tree_rep ex_three ex_three_shape"
  by code_simp

section \<open>Minimum and maximum never fail\<close>

lemma min_max_node_total:
  assumes "tree_rep t T"
  shows "\<exists>a m. internal_mavl_find_node t k = Some a
           \<and> internal_mavl_min_node t a = Some m
           \<and> (k \<notin> set (keys T) \<longrightarrow> m = nil t)"
    and "\<exists>a m. internal_mavl_find_node t k = Some a
           \<and> internal_mavl_max_node t a = Some m
           \<and> (k \<notin> set (keys T) \<longrightarrow> m = nil t)"
proof -
  from assms have r: "rep (heap t) (nil t) (nil t) T" by (simp add: tree_rep_def)
  have f: "internal_mavl_find_node t k
             = Some (case find_t T k of None \<Rightarrow> nil t | Some a \<Rightarrow> a)"
    by (rule find_node_tree_rep[OF assms])
  show "\<exists>a m. internal_mavl_find_node t k = Some a
           \<and> internal_mavl_min_node t a = Some m
           \<and> (k \<notin> set (keys T) \<longrightarrow> m = nil t)"
  proof (cases "find_t T k")
    case None
    then show ?thesis using f by (simp add: internal_mavl_min_node_def)
  next
    case (Some a)
    then have "a \<in> set (addrs T)" by (rule find_t_in_addrs)
    from rep_subtree[OF r this] obtain par' l d c ht r'
      where "rep (heap t) (nil t) par' (Node l a d c ht r')" by blast
    from min_node_rep[OF this] Some f show ?thesis
      by (auto dest: find_t_None_notin)
  qed
  show "\<exists>a m. internal_mavl_find_node t k = Some a
           \<and> internal_mavl_max_node t a = Some m
           \<and> (k \<notin> set (keys T) \<longrightarrow> m = nil t)"
  proof (cases "find_t T k")
    case None
    then show ?thesis using f by (simp add: internal_mavl_max_node_def)
  next
    case (Some a)
    then have "a \<in> set (addrs T)" by (rule find_t_in_addrs)
    from rep_subtree[OF r this] obtain par' l d c ht r'
      where "rep (heap t) (nil t) par' (Node l a d c ht r')" by blast
    from max_node_rep[OF this] Some f show ?thesis
      by (auto dest: find_t_None_notin)
  qed
qed

text \<open>
  Claim C10. On every tree whose store represents a shape, and with an accumulator that
  is not \<^verbatim>\<open>NULL\<close>, \<^verbatim>\<open>mavl_min\<close> and \<^verbatim>\<open>mavl_max\<close> return and their result is
  \<^verbatim>\<open>M_OK\<close>, whatever the key; when the key is not in the tree, which covers the empty
  tree, the accumulator receives the payload field of the sentinel, which no statement
  of the code ever initialises.
\<close>

theorem mavl_min_max_always_ok:
  assumes "tree_rep t T"
  shows "(\<exists>v. mavl_min t k (Some v0) = Some (M_OK, Some v))
       \<and> (\<exists>v. mavl_max t k (Some v0) = Some (M_OK, Some v))
       \<and> (k \<notin> set (keys T) \<longrightarrow>
            mavl_min t k (Some v0) = Some (M_OK, Some (data (heap t (nil t))))
          \<and> mavl_max t k (Some v0) = Some (M_OK, Some (data (heap t (nil t)))))"
  using min_max_node_total[OF assms, of k]
  by (auto simp: mavl_min_def mavl_max_def)

theorem mavl_min_max_always_ok_witness:
  "tree_rep ex_three ex_three_shape
   \<and> 7 \<notin> set (keys ex_three_shape)
   \<and> mavl_min ex_three 7 (Some 0) = Some (M_OK, Some 99)
   \<and> mavl_max ex_three 7 (Some 0) = Some (M_OK, Some 99)
   \<and> mavl_min ex_empty 7 (Some 0) = Some (M_OK, Some 99)"
proof -
  have k: "7 \<notin> set (keys ex_three_shape)" by (simp add: ex_three_shape_def)
  have n: "data (heap ex_three (nil ex_three)) = 99" by code_simp
  have e: "mavl_min ex_empty 7 (Some 0) = Some (M_OK, Some 99)" by code_simp
  from mavl_min_max_always_ok[OF ex_three_rep, of 7 0] k n e ex_three_rep
  show ?thesis by simp
qed

section \<open>Failing deletions\<close>

text \<open>
  Claim C4, as the code has it. Deletion from a tree whose root is the sentinel returns
  \<^verbatim>\<open>M_POP_FROM_EMPTY\<close>; deletion of a key that is not in a non-empty tree returns
  \<^verbatim>\<open>M_INVALID_INPUT\<close>, not \<^verbatim>\<open>M_NOT_FOUND\<close>; in both cases the tree that comes back is
  the tree that went in, store and all.
\<close>

theorem mavl_pop_failures:
  "(root t = nil t \<longrightarrow> mavl_pop t k = Some (M_POP_FROM_EMPTY, t))
   \<and> (tree_rep t T \<and> T \<noteq> Leaf \<and> k \<notin> set (keys T)
        \<longrightarrow> mavl_pop t k = Some (M_INVALID_INPUT, t))"
proof (intro conjI impI)
  assume "root t = nil t"
  then show "mavl_pop t k = Some (M_POP_FROM_EMPTY, t)" by (simp add: mavl_pop_def)
next
  assume a: "tree_rep t T \<and> T \<noteq> Leaf \<and> k \<notin> set (keys T)"
  then have "root t \<noteq> nil t" by (cases T) (auto simp: tree_rep_def)
  moreover from a have "internal_mavl_find_node t k = Some (nil t)"
    using find_node_tree_rep[of t T k] by (simp add: find_t_None_notin)
  ultimately show "mavl_pop t k = Some (M_INVALID_INPUT, t)" by (simp add: mavl_pop_def)
qed

theorem mavl_pop_failures_witness:
  "root ex_empty = nil ex_empty
   \<and> mavl_pop ex_empty 7 = Some (M_POP_FROM_EMPTY, ex_empty)
   \<and> tree_rep ex_three ex_three_shape \<and> ex_three_shape \<noteq> Leaf
   \<and> 7 \<notin> set (keys ex_three_shape)
   \<and> mavl_pop ex_three 7 = Some (M_INVALID_INPUT, ex_three)"
proof -
  have e: "root ex_empty = nil ex_empty" by code_simp
  have k: "ex_three_shape \<noteq> Leaf" "7 \<notin> set (keys ex_three_shape)"
    by (simp_all add: ex_three_shape_def)
  from mavl_pop_failures[of ex_empty 7] mavl_pop_failures[of ex_three 7 ex_three_shape]
    e k ex_three_rep
  show ?thesis by simp
qed

theorem mavl_pop_absent_key_counterexample:
  "map_option fst (mavl_pop ex_three 7) = Some M_INVALID_INPUT
   \<and> map_option fst (mavl_pop ex_three 7) \<noteq> Some M_NOT_FOUND"
  by code_simp

section \<open>Inserting a key that is already there\<close>

lemma push_loop_found:
  "rep (heap t) (nil t) par S \<Longrightarrow> find_t S k = Some a \<Longrightarrow>
   push_loop t k (ptr (nil t) S) p0 = Some (Inl a)"
proof (induction S arbitrary: par p0)
  case Leaf
  then show ?case by simp
next
  case (Node l a1 d c ht r)
  from Node.prems(1) have a: "a1 \<noteq> nil t"
    and ha: "heap t a1 = \<lparr>data = d, parent = par, left = ptr (nil t) l, right = ptr (nil t) r,
                           count = c, height = ht\<rparr>"
    and l: "rep (heap t) (nil t) a1 l" and r: "rep (heap t) (nil t) a1 r"
    by simp_all
  show ?case
  proof (cases "k < d")
    case True
    with Node.prems(2) have "find_t l k = Some a" by (auto split: if_splits)
    from Node.IH(1)[OF l this] True a ha show ?thesis
      by (subst push_loop.simps) (auto dest: order.asym)
  next
    case False
    show ?thesis
    proof (cases "d < k")
      case True
      with Node.prems(2) have "find_t r k = Some a" by simp
      from Node.IH(2)[OF r this] True a ha show ?thesis
        by (subst push_loop.simps) (auto dest: order.asym)
    next
      case nlt: False
      with False Node.prems(2) have "a = a1" by simp
      with False nlt a ha show ?thesis
        by (subst push_loop.simps) (auto dest: order.asym)
    qed
  qed
qed

text \<open>
  Claim C5, as the code has it. When the tree holds a node whose payload equals the key,
  \<^verbatim>\<open>mavl_push\<close> returns \<^verbatim>\<open>M_OK\<close>, the code of every successful insertion, and the tree
  that comes back differs from the one that went in by one write: the count field of
  that node, one more than before in 32-bit arithmetic. No link, height, payload, root
  or size changes, and the result of \<^verbatim>\<open>malloc\<close> plays no part.
\<close>

theorem mavl_push_duplicate:
  assumes "tree_rep t T" and "bst T" and "k \<in> set (keys T)"
  shows "\<exists>a. find_t T k = Some a \<and> a \<in> set (addrs T) \<and> data (heap t a) = k
           \<and> mavl_push t k m = Some (M_OK, set_count t a (count (heap t a) + 1))"
proof -
  from assms(2,3) obtain a where f: "find_t T k = Some a"
    using find_t_bst_None[of T k] by (cases "find_t T k") auto
  from assms(1) have r: "rep (heap t) (nil t) (nil t) T" and rt: "root t = ptr (nil t) T"
    by (simp_all add: tree_rep_def)
  from push_loop_found[OF r f] rt have "push_loop t k (root t) (nil t) = Some (Inl a)"
    by simp
  then have "mavl_push t k m = Some (M_OK, set_count t a (count (heap t a) + 1))"
    by (simp add: mavl_push_def)
  with f find_t_in_addrs[OF f] find_t_data[OF r f] show ?thesis by blast
qed

theorem mavl_push_duplicate_witness:
  "tree_rep ex_three ex_three_shape \<and> bst ex_three_shape \<and> 3 \<in> set (keys ex_three_shape)
   \<and> mavl_push ex_three 3 None = Some (M_OK, set_count ex_three 3 2)"
proof -
  have b: "bst ex_three_shape" "3 \<in> set (keys ex_three_shape)"
    by (simp_all add: ex_three_shape_def)
  have f: "find_t ex_three_shape 3 = Some 3" by (simp add: ex_three_shape_def)
  have c: "count (heap ex_three 3) + 1 = 2" by code_simp
  from mavl_push_duplicate[OF ex_three_rep b, of None] f c b ex_three_rep
  show ?thesis by auto
qed

theorem mavl_push_duplicate_code_counterexample:
  "map_option fst (mavl_push ex_empty 5 (Some 1)) = Some M_OK
   \<and> map_option fst (mavl_push ex_one 5 (Some 2)) = Some M_OK
   \<and> map_option fst (mavl_push ex_one 5 (Some 2))
       = map_option fst (mavl_push ex_empty 5 (Some 1))"
  by code_simp

section \<open>A payload allocation that fails\<close>

text \<open>
  Claim C6 at its failing input. \<^verbatim>\<open>avl_insert\<close> of \<^verbatim>\<open>scl_avl_tree.c\<close> into the empty
  tree, the node's \<^verbatim>\<open>malloc\<close> returning address 1 and the payload's \<^verbatim>\<open>malloc\<close>
  failing: the call returns 0, its success code, the new node is the root, the size is
  1, and the node's payload pointer is \<^verbatim>\<open>NULL\<close>.
\<close>

theorem avl_insert_payload_malloc_fails:
  "\<exists>t'. avl_insert avl_empty (Some 5) 4 (Some 1) False = Some (0, t')
        \<and> avl_root t' = Some 1 \<and> avl_size t' = 1
        \<and> avl_data (avl_heap t' 1) = None
        \<and> avl_root avl_empty = None \<and> avl_size avl_empty = 0"
proof -
  have "avl_insert avl_empty (Some 5) 4 (Some 1) False
          = Some (0, (avl_store avl_empty 1
              \<lparr>avl_data = None, avl_parent = None, avl_left = None, avl_right = None,
               avl_count = 1, avl_height = 1\<rparr>)\<lparr>avl_root := Some 1, avl_size := 1\<rparr>)"
    by (subst avl_insert_def, subst avl_insert_loop.simps)
       (simp add: avl_empty_def create_avl_def create_avl_node_def avl_store_def)
  moreover have "avl_root avl_empty = None" "avl_size avl_empty = 0"
    by (simp_all add: avl_empty_def create_avl_def)
  ultimately show ?thesis by (simp add: avl_store_def)
qed

section \<open>Predecessor of the least key\<close>

text \<open>
  Claim C7 at its failing input. In the tree with the keys 1, 2 and 3 the key 1 has no
  predecessor and the key 3 no successor; \<^verbatim>\<open>mavl_pred\<close> and \<^verbatim>\<open>mavl_succ\<close> return
  \<^verbatim>\<open>M_OK\<close> all the same and write the payload field of the sentinel, here 99, to the
  accumulator.
\<close>

theorem mavl_pred_of_least_key:
  "mavl_pred ex_three 1 (Some 0) = Some (M_OK, Some 99)
   \<and> mavl_succ ex_three 3 (Some 0) = Some (M_OK, Some 99)
   \<and> data (heap ex_three (nil ex_three)) = 99
   \<and> keys ex_three_shape = [1, 2, 3]"
  by code_simp

section \<open>The lowest common ancestor\<close>

lemma ancestors_None: "k \<notin> set (keys T) \<Longrightarrow> ancestors T k = None"
  by (induction T) auto

lemma ancestors_Some:
  "k \<in> set (keys T) \<Longrightarrow> \<exists>p. ancestors T k = Some p"
  by (induction T) (auto split: option.splits)

lemma ancestors_subset: "ancestors T k = Some p \<Longrightarrow> set p \<subseteq> set (keys T)"
  by (induction T arbitrary: p) (auto split: if_splits option.splits)

lemma ancestors_hd:
  "ancestors (Node l a d c ht r) k = Some p \<Longrightarrow> \<exists>q. p = d # q"
  by (auto split: if_splits option.splits)

lemma lca_loop_rep:
  assumes "rep (heap t) (nil t) par T" "bst T" "k1 \<in> set (keys T)" "k2 \<in> set (keys T)"
  shows "\<exists>a. lca_loop t k1 k2 (ptr (nil t) T) = Some a \<and> a \<noteq> nil t
            \<and> lca_reference T k1 k2 = Some (data (heap t a))"
  using assms
proof (induction T arbitrary: par)
  case Leaf
  then show ?case by simp
next
  case (Node l a d c ht r)
  from Node.prems(1) have a: "a \<noteq> nil t"
    and ha: "heap t a = \<lparr>data = d, parent = par, left = ptr (nil t) l, right = ptr (nil t) r,
                          count = c, height = ht\<rparr>"
    and l: "rep (heap t) (nil t) a l" and r: "rep (heap t) (nil t) a r"
    by simp_all
  from Node.prems(2) have bl: "bst l" and br: "bst r"
    and lo: "\<forall>x \<in> set (keys l). x < d" and hi: "\<forall>x \<in> set (keys r). d < x"
    by simp_all
  consider (left) "k1 < d" "k2 < d" | (right) "d < k1" "d < k2"
    | (here) "\<not> (k1 < d \<and> k2 < d)" "\<not> (d < k1 \<and> d < k2)"
    by auto
  then show ?case
  proof cases
    case left
    with Node.prems(3,4) hi have i1: "k1 \<in> set (keys l)" and i2: "k2 \<in> set (keys l)"
      by (auto dest: order.asym)
    from Node.IH(1)[OF l bl i1 i2] obtain b where
      b: "lca_loop t k1 k2 (ptr (nil t) l) = Some b" "b \<noteq> nil t"
         "lca_reference l k1 k2 = Some (data (heap t b))"
      by blast
    from ancestors_Some[OF i1] obtain p1 where p1: "ancestors l k1 = Some p1" by blast
    from ancestors_Some[OF i2] obtain p2 where p2: "ancestors l k2 = Some p2" by blast
    have nd1: "d \<notin> set p1" using ancestors_subset[OF p1] lo by auto
    have "l \<noteq> Leaf" using i1 by auto
    then obtain l1 a1 d1 c1 h1 r1 where leq: "l = Node l1 a1 d1 c1 h1 r1" by (cases l) auto
    from ancestors_hd[OF p1[unfolded leq]] ancestors_hd[OF p2[unfolded leq]]
    obtain q1 q2 where q: "p1 = d1 # q1" "p2 = d1 # q2" by blast
    have ne: "filter (\<lambda>x. x \<in> set p2) p1 \<noteq> []" using q by simp
    have fe: "filter (\<lambda>x. x = d \<or> x \<in> set p2) p1 = filter (\<lambda>x. x \<in> set p2) p1"
      using nd1 by (intro filter_cong) auto
    have "lca_reference (Node l a d c ht r) k1 k2 = lca_reference l k1 k2"
      using left p1 p2 ne fe by (auto simp: lca_reference_def)
    moreover have "lca_loop t k1 k2 a = Some b"
      using left a ha b(1) by (subst lca_loop.simps) simp
    ultimately show ?thesis using b by simp
  next
    case right
    with Node.prems(3,4) lo have i1: "k1 \<in> set (keys r)" and i2: "k2 \<in> set (keys r)"
      by (auto dest: order.asym)
    from Node.IH(2)[OF r br i1 i2] obtain b where
      b: "lca_loop t k1 k2 (ptr (nil t) r) = Some b" "b \<noteq> nil t"
         "lca_reference r k1 k2 = Some (data (heap t b))"
      by blast
    from ancestors_Some[OF i1] obtain p1 where p1: "ancestors r k1 = Some p1" by blast
    from ancestors_Some[OF i2] obtain p2 where p2: "ancestors r k2 = Some p2" by blast
    have nl1: "ancestors l k1 = None" "ancestors l k2 = None"
      using right lo by (auto intro!: ancestors_None dest: order.asym)
    have nd1: "d \<notin> set p1" using ancestors_subset[OF p1] hi by auto
    have "r \<noteq> Leaf" using i1 by auto
    then obtain l1 a1 d1 c1 h1 r1 where req: "r = Node l1 a1 d1 c1 h1 r1" by (cases r) auto
    from ancestors_hd[OF p1[unfolded req]] ancestors_hd[OF p2[unfolded req]]
    obtain q1 q2 where q: "p1 = d1 # q1" "p2 = d1 # q2" by blast
    have ne: "filter (\<lambda>x. x \<in> set p2) p1 \<noteq> []" using q by simp
    have fe: "filter (\<lambda>x. x = d \<or> x \<in> set p2) p1 = filter (\<lambda>x. x \<in> set p2) p1"
      using nd1 by (intro filter_cong) auto
    have "lca_reference (Node l a d c ht r) k1 k2 = lca_reference r k1 k2"
      using right p1 p2 nl1 ne fe by (auto simp: lca_reference_def)
    moreover have "lca_loop t k1 k2 a = Some b"
      using right a ha b(1) by (subst lca_loop.simps) (auto dest: order.asym)
    ultimately show ?thesis using b by simp
  next
    case here
    have loop: "lca_loop t k1 k2 a = Some a"
      using here a ha by (subst lca_loop.simps) auto
    from ancestors_Some[OF Node.prems(3)] obtain p1 where
      p1: "ancestors (Node l a d c ht r) k1 = Some p1" by blast
    from ancestors_Some[OF Node.prems(4)] obtain p2 where
      p2: "ancestors (Node l a d c ht r) k2 = Some p2" by blast
    from ancestors_hd[OF p1] ancestors_hd[OF p2]
    obtain q1 q2 where q: "p1 = d # q1" "p2 = d # q2" by blast
    have "\<forall>x \<in> set q1. x \<notin> set p2"
    proof
      fix x assume x: "x \<in> set q1"
      show "x \<notin> set p2"
      proof (cases "k1 = d")
        case True
        with p1 q x show ?thesis by simp
      next
        case k1: False
        show ?thesis
        proof (cases "k2 = d")
          case True
          with p2 q have "q2 = []" by simp
          moreover have "x \<noteq> d"
          proof -
            from p1 q k1 have "Some q1 = ancestors l k1 \<or> Some q1 = ancestors r k1"
              by (auto split: option.splits)
            then have "set q1 \<subseteq> set (keys l) \<union> set (keys r)"
              using ancestors_subset[of l k1 q1] ancestors_subset[of r k1 q1] by auto
            with x lo hi show ?thesis by auto
          qed
          ultimately show ?thesis using q by simp
        next
          case k2: False
          from here k1 k2 consider "k1 < d" "d < k2" | "d < k1" "k2 < d"
            by (metis linorder_neqE)
          then show ?thesis
          proof cases
            case 1
            with Node.prems(3,4) lo hi have i1: "k1 \<in> set (keys l)" and i2: "k2 \<in> set (keys r)"
              by (auto dest: order.asym)
            have n2: "ancestors l k2 = None"
              using 1 lo by (auto intro!: ancestors_None dest: order.asym)
            from ancestors_Some[OF i1] p1 q k1 have a1: "ancestors l k1 = Some q1"
              by (auto split: option.splits)
            from p2 q k2 n2 have a2: "ancestors r k2 = Some q2"
              by (auto split: option.splits)
            from ancestors_subset[OF a1] ancestors_subset[OF a2] x lo hi q
            show ?thesis by (fastforce dest: order.asym)
          next
            case 2
            with Node.prems(3,4) lo hi have i1: "k1 \<in> set (keys r)" and i2: "k2 \<in> set (keys l)"
              by (auto dest: order.asym)
            have n1: "ancestors l k1 = None"
              using 2 lo by (auto intro!: ancestors_None dest: order.asym)
            from p1 q k1 n1 have a1: "ancestors r k1 = Some q1"
              by (auto split: option.splits)
            from ancestors_Some[OF i2] p2 q k2 have a2: "ancestors l k2 = Some q2"
              by (auto split: option.splits)
            from ancestors_subset[OF a1] ancestors_subset[OF a2] x lo hi q
            show ?thesis by (fastforce dest: order.asym)
          qed
        qed
      qed
    qed
    then have "filter (\<lambda>x. x \<in> set p2) p1 = [d]"
      using q by (simp add: filter_empty_conv)
    then have "lca_reference (Node l a d c ht r) k1 k2 = Some d"
      using p1 p2 unfolding lca_reference_def by simp
    with loop a ha show ?thesis by simp
  qed
qed

lemma lca_reference_same:
  "k \<in> set (keys T) \<Longrightarrow> bst T \<Longrightarrow> lca_reference T k k = Some k"
proof -
  assume k: "k \<in> set (keys T)" and b: "bst T"
  from ancestors_Some[OF k] obtain p where p: "ancestors T k = Some p" by blast
  have "p \<noteq> [] \<and> last p = k" using p
    by (induction T arbitrary: p) (auto split: if_splits option.splits)
  with p show ?thesis by (simp add: lca_reference_def)
qed


text \<open>
  Claim C8. On a tree whose store represents a shape in search-tree order,
  \<^verbatim>\<open>mavl_lca\<close> returns \<^verbatim>\<open>M_INVALID_INPUT\<close> exactly when one of the two keys is not in
  the tree; when both are, it returns \<^verbatim>\<open>M_OK\<close> and, the accumulator not being \<^verbatim>\<open>NULL\<close>,
  writes to it the payload that the reference computation over the ancestors of the
  two keys gives; the lowest common ancestor of a key with itself is that key; and
  \<^verbatim>\<open>M_UNDEFINED_BEHAVIOUR\<close> is never returned.
\<close>

theorem mavl_lca_reference:
  assumes "tree_rep t T" and "bst T"
  shows "mavl_lca t k1 k2 (Some v) =
           Some (if k1 \<in> set (keys T) \<and> k2 \<in> set (keys T)
                 then (M_OK, lca_reference T k1 k2) else (M_INVALID_INPUT, Some v))
       \<and> mavl_lca t k1 k2 None =
           Some (if k1 \<in> set (keys T) \<and> k2 \<in> set (keys T)
                 then (M_OK, None) else (M_INVALID_INPUT, None))
       \<and> (k1 \<in> set (keys T) \<longrightarrow> lca_reference T k1 k1 = Some k1)
       \<and> (\<forall>acc e. mavl_lca t k1 k2 acc \<noteq> Some (M_UNDEFINED_BEHAVIOUR, e))"
proof -
  from assms(1) have r: "rep (heap t) (nil t) (nil t) T" and rt: "root t = ptr (nil t) T"
    by (simp_all add: tree_rep_def)
  have nn: "nil t \<notin> set (addrs T)" by (rule rep_not_nil[OF r])
  have f: "\<And>k. internal_mavl_find_node t k
             = Some (case find_t T k of None \<Rightarrow> nil t | Some a \<Rightarrow> a)"
    by (rule find_node_tree_rep[OF assms(1)])
  have fn: "\<And>k. (case find_t T k of None \<Rightarrow> nil t | Some a \<Rightarrow> a) = nil t
                  \<longleftrightarrow> k \<notin> set (keys T)"
    using nn find_t_in_addrs[of T] find_t_bst_None[OF assms(2)] find_t_None_notin[of _ T]
    by (fastforce split: option.splits)
  show ?thesis
  proof (cases "k1 \<in> set (keys T) \<and> k2 \<in> set (keys T)")
    case True
    from lca_loop_rep[OF r assms(2), of k1 k2] True obtain a where
      a: "lca_loop t k1 k2 (root t) = Some a" "a \<noteq> nil t"
         "lca_reference T k1 k2 = Some (data (heap t a))"
      using rt by auto
    from True a f fn lca_reference_same[OF _ assms(2), of k1] show ?thesis
      by (simp add: mavl_lca_def)
  next
    case False
    with f fn lca_reference_same[OF _ assms(2), of k1] show ?thesis
      by (auto simp: mavl_lca_def)
  qed
qed

theorem mavl_lca_reference_witness:
  "tree_rep ex_three ex_three_shape \<and> bst ex_three_shape
   \<and> mavl_lca ex_three 1 3 (Some 0) = Some (M_OK, Some 2)
   \<and> mavl_lca ex_three 1 1 (Some 0) = Some (M_OK, Some 1)
   \<and> mavl_lca ex_three 1 7 (Some 0) = Some (M_INVALID_INPUT, Some 0)"
proof -
  have b: "bst ex_three_shape" by (simp add: ex_three_shape_def)
  have k: "set (keys ex_three_shape) = {1, 2, 3}" by (auto simp: ex_three_shape_def)
  have l: "lca_reference ex_three_shape 1 3 = Some 2"
    by (simp add: ex_three_shape_def lca_reference_def)
  from mavl_lca_reference[OF ex_three_rep b, of 1 3 0]
    mavl_lca_reference[OF ex_three_rep b, of 1 1 0]
    mavl_lca_reference[OF ex_three_rep b, of 1 7 0] b k l ex_three_rep
  show ?thesis by simp
qed

end
